theory Spec2Isabelle
  imports Complex_Main
begin

section \<open>JavaScript values as the hooks see them\<close>

text \<open>
  Both hooks receive their data through \<^verbatim>\<open>JSON.parse\<close> and never validate it: the
  TypeScript types and casts (\<^verbatim>\<open>message.data as unknown as EquipmentStatus\<close>) vanish at
  run time. The model therefore keeps frames and payloads as parsed JSON: an object is its
  property list (the first binding of a name is the property), a number is the rational it
  denotes, and a value that may be \<^verbatim>\<open>undefined\<close> is an option, \<open>None\<close> being \<^verbatim>\<open>undefined\<close>.
\<close>

datatype jsval =
    JNull
  | JBool bool
  | JNum rat
  | JStr string
  | JArr "jsval list"
  | JObj "(string \<times> jsval) list"

type_synonym jsobj = "(string \<times> jsval) list"

text \<open>Property read \<^verbatim>\<open>o.name\<close> on an object: \<open>None\<close> is \<^verbatim>\<open>undefined\<close>.\<close>

definition get :: "jsobj \<Rightarrow> string \<Rightarrow> jsval option" where
  "get obj name = map_of obj name"

text \<open>
  Property read \<^verbatim>\<open>v.name\<close> on a parsed value, for the names the hooks read
  (\<^verbatim>\<open>stream_type\<close>, \<^verbatim>\<open>data\<close>, \<^verbatim>\<open>connection_id\<close>, \<^verbatim>\<open>equipment_id\<close>, \<^verbatim>\<open>alert_id\<close>,
  \<^verbatim>\<open>chunk\<close>, \<^verbatim>\<open>detail\<close>), none of which a prototype defines: the read throws a
  \<^verbatim>\<open>TypeError\<close> on \<^verbatim>\<open>null\<close> (\<open>None\<close>), and is \<^verbatim>\<open>undefined\<close> on the other values that
  are not objects.
\<close>

fun read_prop :: "jsval \<Rightarrow> string \<Rightarrow> jsval option option" where
  "read_prop JNull name = None"
| "read_prop (JObj obj) name = Some (get obj name)"
| "read_prop _ name = Some None"

text \<open>The same read on a value that may be \<^verbatim>\<open>undefined\<close>, where it throws as well.\<close>

fun deref :: "jsval option \<Rightarrow> string \<Rightarrow> jsval option option" where
  "deref None name = None"
| "deref (Some v) name = read_prop v name"

text \<open>What such a read yields, \<^verbatim>\<open>undefined\<close> standing in where it throws.\<close>

definition peek :: "jsval option \<Rightarrow> string \<Rightarrow> jsval option" where
  "peek v name = (case deref v name of None \<Rightarrow> None | Some x \<Rightarrow> x)"

text \<open>The truthiness test of \<^verbatim>\<open>if (v)\<close> and \<^verbatim>\<open>a || b\<close>.\<close>

fun truthy :: "jsval option \<Rightarrow> bool" where
  "truthy None = False"
| "truthy (Some JNull) = False"
| "truthy (Some (JBool b)) = b"
| "truthy (Some (JNum n)) = (n \<noteq> 0)"
| "truthy (Some (JStr s)) = (s \<noteq> [])"
| "truthy (Some (JArr _)) = True"
| "truthy (Some (JObj _)) = True"

text \<open>
  Keys of a JavaScript \<^verbatim>\<open>Map\<close> are compared by SameValueZero: primitives by value, objects
  and arrays by reference. Every parsed message is a fresh object graph, so an object or
  array taken from one message is never the same key as one taken from another.
\<close>

fun primitive :: "jsval option \<Rightarrow> bool" where
  "primitive (Some (JArr _)) = False"
| "primitive (Some (JObj _)) = False"
| "primitive _ = True"

definition sameValueZero :: "jsval option \<Rightarrow> jsval option \<Rightarrow> bool" where
  "sameValueZero a b = (a = b \<and> primitive a)"

text \<open>
  \<^verbatim>\<open>Map.prototype.set\<close>: an existing key keeps its place in the insertion order and gets the
  new value, a new key is appended.
\<close>

fun map_set :: "jsval option \<Rightarrow> 'v \<Rightarrow> (jsval option \<times> 'v) list \<Rightarrow> (jsval option \<times> 'v) list" where
  "map_set k v [] = [(k, v)]"
| "map_set k v ((k', v') # rest) =
     (if sameValueZero k' k then (k', v) # rest else (k', v') # map_set k v rest)"

text \<open>\<^verbatim>\<open>Map.prototype.get\<close>.\<close>

fun map_get :: "jsval option \<Rightarrow> (jsval option \<times> 'v) list \<Rightarrow> 'v option" where
  "map_get k [] = None"
| "map_get k ((k', v') # rest) = (if sameValueZero k' k then Some v' else map_get k rest)"

section \<open>useRealtime: the message router and state store\<close>

datatype ConnectionStatus = Connecting | Connected | Disconnected | Reconnecting

text \<open>
  A \<^verbatim>\<open>StreamMessage\<close> is the value \<^verbatim>\<open>JSON.parse\<close> returned for a frame: nothing checks that
  it is an object, that its \<open>stream_type\<close> is one of the six known tags, or that its \<open>data\<close>
  is an object. These are its two properties that the hook reads.
\<close>

definition stream_type :: "jsval \<Rightarrow> jsval option" where
  "stream_type message = peek (Some message) ''stream_type''"

definition data :: "jsval \<Rightarrow> jsval option" where
  "data message = peek (Some message) ''data''"

text \<open>
  \<^verbatim>\<open>RealtimeState\<close>. The slots that hold JavaScript values hold them as received, with
  \<open>Some JNull\<close> for \<^verbatim>\<open>null\<close>; \<open>lastMessageAt\<close> holds the clock reading of \<^verbatim>\<open>new Date()\<close> in
  milliseconds, \<open>None\<close> for \<^verbatim>\<open>null\<close>.
\<close>

record RealtimeState =
  connectionStatus :: ConnectionStatus
  connectionId :: "jsval option"
  lastYieldUpdate :: "jsval option"
  equipmentStatuses :: "(jsval option \<times> jsval option) list"
  recentWIPMovements :: "jsval option list"
  activeAlerts :: "jsval option list"
  metrics :: "jsval option"
  messageCount :: nat
  lastMessageAt :: "nat option"

text \<open>The initial value given to \<^verbatim>\<open>useState\<close>.\<close>

definition initialState :: RealtimeState where
  "initialState = \<lparr> connectionStatus = Disconnected, connectionId = Some JNull,
     lastYieldUpdate = Some JNull, equipmentStatuses = [], recentWIPMovements = [],
     activeAlerts = [], metrics = Some JNull, messageCount = 0, lastMessageAt = None \<rparr>"

text \<open>
  The updater that \<^verbatim>\<open>handleMessage\<close> passes to \<^verbatim>\<open>setState\<close>; \<open>now\<close> is the clock at the
  moment it runs, and \<open>None\<close> is the \<^verbatim>\<open>TypeError\<close> of a property read, with which the
  update fails. The switch reads \<^verbatim>\<open>message.stream_type\<close>; the heartbeat case reads
  \<^verbatim>\<open>message.data.connection_id\<close> and the equipment case \<^verbatim>\<open>message.data.equipment_id\<close>; the
  other cases store \<^verbatim>\<open>message.data\<close> without looking into it. A \<open>stream_type\<close> outside the
  six cases falls through the switch.
\<close>

definition handleMessage :: "nat \<Rightarrow> jsval \<Rightarrow> RealtimeState \<Rightarrow> RealtimeState option" where
  "handleMessage now message prev =
    (let newState = prev\<lparr> messageCount := messageCount prev + 1, lastMessageAt := Some now \<rparr> in
     case read_prop message ''stream_type'' of
       None \<Rightarrow> None
     | Some tag \<Rightarrow>
         if tag = Some (JStr ''heartbeat'') then
           (case deref (data message) ''connection_id'' of
              None \<Rightarrow> None
            | Some connection_id \<Rightarrow>
                if truthy connection_id
                then Some (newState\<lparr> connectionId := connection_id \<rparr>)
                else Some newState)
         else if tag = Some (JStr ''yield_update'') then
           Some (newState\<lparr> lastYieldUpdate := data message \<rparr>)
         else if tag = Some (JStr ''equipment_status'') then
           (case deref (data message) ''equipment_id'' of
              None \<Rightarrow> None
            | Some equipment_id \<Rightarrow>
                Some (newState\<lparr> equipmentStatuses :=
                  map_set equipment_id (data message) (equipmentStatuses prev) \<rparr>))
         else if tag = Some (JStr ''wip_movement'') then
           Some (newState\<lparr> recentWIPMovements := take 50 (data message # recentWIPMovements prev) \<rparr>)
         else if tag = Some (JStr ''alert'') then
           Some (newState\<lparr> activeAlerts := take 100 (data message # activeAlerts prev) \<rparr>)
         else if tag = Some (JStr ''metrics'') then
           Some (newState\<lparr> metrics := data message \<rparr>)
         else Some newState)"

text \<open>The \<^verbatim>\<open>onAlert\<close> callback invocations that the update for one message makes.\<close>

definition onAlert_calls :: "jsval \<Rightarrow> jsval option list" where
  "onAlert_calls message =
     (if stream_type message = Some (JStr ''alert'') then [data message] else [])"

text \<open>
  Messages applied in arrival order, each with its own clock reading; an update that
  throws ends the sequence.
\<close>

fun handleMessages :: "(nat \<times> jsval) list \<Rightarrow> RealtimeState \<Rightarrow> RealtimeState option" where
  "handleMessages [] s = Some s"
| "handleMessages ((now, m) # rest) s =
     (case handleMessage now m s of None \<Rightarrow> None | Some s' \<Rightarrow> handleMessages rest s')"

text \<open>
  \<^verbatim>\<open>clearAlerts\<close> and \<^verbatim>\<open>dismissAlert\<close>, the two caller actions on stored data. The filter
  of \<^verbatim>\<open>dismissAlert\<close> reads \<^verbatim>\<open>a.alert_id\<close> of every stored alert and throws where that
  read does.
\<close>

definition clearAlerts :: "RealtimeState \<Rightarrow> RealtimeState" where
  "clearAlerts prev = prev\<lparr> activeAlerts := [] \<rparr>"

definition dismissAlert :: "string \<Rightarrow> RealtimeState \<Rightarrow> RealtimeState option" where
  "dismissAlert alertId prev =
     (if list_ex (\<lambda>a. deref a ''alert_id'' = None) (activeAlerts prev) then None
      else Some (prev\<lparr> activeAlerts :=
             filter (\<lambda>a. deref a ''alert_id'' \<noteq> Some (Some (JStr alertId))) (activeAlerts prev) \<rparr>))"


section \<open>useRealtime: the connection manager\<close>

text \<open>
  The hook keeps, next to the React state, three refs: the current socket, the reconnect
  counter and the handle of the last retry timer. Sockets and timers live in the browser;
  the model lists every socket the hook has constructed (a socket is named by its position)
  with its \<^verbatim>\<open>readyState\<close>, and the handles of the timers that are still pending. Timer
  handles are the positive numbers \<^verbatim>\<open>setTimeout\<close> returns, so a stored handle is truthy.
  The retry delay only says when a pending timer fires; the model lets it fire at any
  later moment.
\<close>

datatype readyState = CONNECTING | OPEN | CLOSING | CLOSED

text \<open>
  Of the options, the two that steer reconnection: the retry delay in milliseconds and the
  maximal number of attempts. Both are JavaScript numbers, and so is the counter that is
  compared with the maximum. The callbacks appear as the effects the hook fires.
\<close>

record UseRealtimeOptions =
  reconnectInterval :: rat
  maxReconnectAttempts :: rat

datatype effect = onConnect | onDisconnect | onMessage jsval | onAlert "jsval option"

record client =
  state :: RealtimeState
  wsRef :: "nat option"
  reconnectAttemptsRef :: rat
  reconnectTimeoutRef :: "nat option"
  sockets :: "readyState list"
  pendingTimers :: "nat list"
  timerSeq :: nat
  effects :: "effect list"

text \<open>The hook right after mounting, before \<^verbatim>\<open>connect\<close> has run.\<close>

definition mounted :: client where
  "mounted = \<lparr> state = initialState, wsRef = None, reconnectAttemptsRef = 0,
     reconnectTimeoutRef = None, sockets = [], pendingTimers = [], timerSeq = 0,
     effects = [] \<rparr>"

definition readyState_of :: "client \<Rightarrow> nat \<Rightarrow> readyState option" where
  "readyState_of c i = (if i < length (sockets c) then Some (sockets c ! i) else None)"

definition setStatus :: "ConnectionStatus \<Rightarrow> client \<Rightarrow> client" where
  "setStatus st c = c\<lparr> state := (state c)\<lparr> connectionStatus := st \<rparr> \<rparr>"

text \<open>
  \<^verbatim>\<open>connect\<close>: nothing happens when the current socket is open; otherwise the status
  becomes connecting and a new socket is constructed and stored in \<open>wsRef\<close>. The counter and
  the timer ref are not touched.
\<close>

definition connect :: "client \<Rightarrow> client" where
  "connect c =
    (if (case wsRef c of None \<Rightarrow> False | Some i \<Rightarrow> readyState_of c i = Some OPEN) then c
     else (setStatus Connecting c)\<lparr> sockets := sockets c @ [CONNECTING],
                                       wsRef := Some (length (sockets c)) \<rparr>)"

text \<open>\<^verbatim>\<open>ws.onopen\<close>.\<close>

definition onopen :: "client \<Rightarrow> client" where
  "onopen c = (setStatus Connected c)\<lparr> reconnectAttemptsRef := 0,
                                        effects := effects c @ [onConnect] \<rparr>"

text \<open>
  \<^verbatim>\<open>ws.onclose\<close>: the status becomes disconnected and the connection id is reset; below
  the maximum the status becomes reconnecting and a timer is started whose handle
  overwrites \<open>reconnectTimeoutRef\<close>. No \<^verbatim>\<open>clearTimeout\<close> is called here.
\<close>

definition onclose :: "UseRealtimeOptions \<Rightarrow> client \<Rightarrow> client" where
  "onclose opts c =
    (let c1 = c\<lparr> state := (state c)\<lparr> connectionStatus := Disconnected, connectionId := Some JNull \<rparr>,
                  effects := effects c @ [onDisconnect] \<rparr> in
     if reconnectAttemptsRef c1 < maxReconnectAttempts opts then
       (setStatus Reconnecting c1)\<lparr> reconnectTimeoutRef := Some (timerSeq c1 + 1),
                                       pendingTimers := pendingTimers c1 @ [timerSeq c1 + 1],
                                       timerSeq := timerSeq c1 + 1 \<rparr>
     else c1)"

text \<open>The callback of the retry timer.\<close>

definition ontimeout :: "client \<Rightarrow> client" where
  "ontimeout c = connect (c\<lparr> reconnectAttemptsRef := reconnectAttemptsRef c + 1 \<rparr>)"

text \<open>\<^verbatim>\<open>ws.close()\<close>: a socket that is connecting or open starts closing.\<close>

definition ws_close :: "nat \<Rightarrow> readyState list \<Rightarrow> readyState list" where
  "ws_close i socks =
    (if i < length socks \<and> (socks ! i = CONNECTING \<or> socks ! i = OPEN)
     then socks[i := CLOSING] else socks)"

text \<open>
  \<^verbatim>\<open>disconnect\<close>: the timer whose handle is stored is cleared, the counter is set to the
  maximum, the current socket is told to close and \<open>wsRef\<close> is emptied.
\<close>

definition disconnect :: "UseRealtimeOptions \<Rightarrow> client \<Rightarrow> client" where
  "disconnect opts c =
    c\<lparr> pendingTimers := (case reconnectTimeoutRef c of None \<Rightarrow> pendingTimers c
                           | Some t \<Rightarrow> removeAll t (pendingTimers c)),
       reconnectAttemptsRef := maxReconnectAttempts opts,
       sockets := (case wsRef c of None \<Rightarrow> sockets c | Some i \<Rightarrow> ws_close i (sockets c)),
       wsRef := None \<rparr>"

text \<open>
  \<^verbatim>\<open>ws.onmessage\<close>: a frame that \<^verbatim>\<open>JSON.parse\<close> rejects (\<open>None\<close>) is logged and dropped. For
  a parsed one \<^verbatim>\<open>handleMessage\<close> queues its updater and the \<^verbatim>\<open>onMessage\<close> callback runs;
  the updater, and \<^verbatim>\<open>onAlert\<close> inside it, run when React processes the update. When the
  updater throws, the state is not updated and the message is not counted; what React does
  with the failed render is not followed here.
\<close>

definition onmessage_ws :: "nat \<Rightarrow> jsval option \<Rightarrow> client \<Rightarrow> client" where
  "onmessage_ws now frame c =
    (case frame of None \<Rightarrow> c
     | Some message \<Rightarrow>
         (case handleMessage now message (state c) of
            None \<Rightarrow> c\<lparr> effects := effects c @ [onMessage message] \<rparr>
          | Some s' \<Rightarrow>
              c\<lparr> state := s',
                 effects := effects c @ [onMessage message] @ map onAlert (onAlert_calls message) \<rparr>))"

text \<open>
  What can happen to the hook: \<^verbatim>\<open>connect\<close> or \<^verbatim>\<open>disconnect\<close> is called, by the caller or
  by the effect of the hook itself (which calls \<^verbatim>\<open>connect\<close> on mount and, when its
  dependencies change, \<^verbatim>\<open>disconnect\<close> and then \<^verbatim>\<open>connect\<close>); the browser opens or closes a
  socket or delivers a frame on an open one; a pending timer fires. \<open>step\<close> is \<open>None\<close> when the browser cannot produce the event in that state.
  (\<^verbatim>\<open>ws.onerror\<close> only logs, and the close that follows an error is a close event.)
\<close>

datatype event =
    Connect
  | Disconnect
  | SockOpen nat
  | SockClose nat
  | SockMessage nat nat "jsval option"
  | TimerFire nat

fun step :: "UseRealtimeOptions \<Rightarrow> event \<Rightarrow> client \<Rightarrow> client option" where
  "step opts Connect c = Some (connect c)"
| "step opts Disconnect c = Some (disconnect opts c)"
| "step opts (SockOpen i) c =
     (if readyState_of c i = Some CONNECTING
      then Some (onopen (c\<lparr> sockets := (sockets c)[i := OPEN] \<rparr>)) else None)"
| "step opts (SockClose i) c =
     (if readyState_of c i \<in> {Some CONNECTING, Some OPEN, Some CLOSING}
      then Some (onclose opts (c\<lparr> sockets := (sockets c)[i := CLOSED] \<rparr>)) else None)"
| "step opts (SockMessage i now frame) c =
     (if readyState_of c i = Some OPEN then Some (onmessage_ws now frame c) else None)"
| "step opts (TimerFire t) c =
     (if t \<in> set (pendingTimers c)
      then Some (ontimeout (c\<lparr> pendingTimers := removeAll t (pendingTimers c) \<rparr>)) else None)"

fun run :: "UseRealtimeOptions \<Rightarrow> event list \<Rightarrow> client \<Rightarrow> client option" where
  "run opts [] c = Some c"
| "run opts (e # es) c = (case step opts e c of None \<Rightarrow> None | Some c' \<Rightarrow> run opts es c')"

section \<open>useAIInsight: the streaming request client\<close>

text \<open>
  Library functions of the platform are parameters of the model: \<^verbatim>\<open>JSON.stringify\<close> as the
  template literal renders it, \<^verbatim>\<open>JSON.parse\<close> (\<open>None\<close> when it throws), the string
  conversion of a value that is not a string, and the message of the \<^verbatim>\<open>TypeError\<close> raised
  by a property read on \<^verbatim>\<open>null\<close>. The type \<open>'r\<close> is that of the \<^verbatim>\<open>results\<close> argument.
\<close>

record 'r js_lib =
  stringify :: "'r \<Rightarrow> string"
  json_parse :: "string \<Rightarrow> jsval option"
  to_string :: "jsval \<Rightarrow> string"
  typeError_message :: string

record InsightState =
  text_value :: string
  isLoading :: bool
  error_value :: "string option"

text \<open>What a \<^verbatim>\<open>catch\<close> can receive: the abort exception, an \<^verbatim>\<open>Error\<close>, anything else.\<close>

datatype js_error = AbortError | JsError string | Thrown

text \<open>
  The two message literals of the source are Korean text; these ASCII strings stand for
  them.
\<close>

definition msg_no_streaming :: string where
  "msg_no_streaming = ''streaming is not available''"

definition msg_generation_failed :: string where
  "msg_generation_failed = ''AI insight generation failed''"

text \<open>
  A call of \<^verbatim>\<open>generate\<close> that reaches \<^verbatim>\<open>fetch\<close> is a coroutine with three places where it
  waits: for the response, for the body of an error response, for the next piece of the
  stream (with the text accumulated so far). Each call constructs one
  \<^verbatim>\<open>AbortController\<close>, whose flag is kept with the request.
\<close>

datatype phase = AwaitFetch | AwaitJson nat | AwaitRead string | Settled

record 'r request =
  req_queryType :: string
  req_results :: 'r
  req_key :: string
  aborted :: bool
  phase :: phase

text \<open>
  The hook: the module-level cache, the React state, the ref to the last controller, and
  every request issued so far (a request, and its controller, is named by its position).
\<close>

record 'r hook =
  cache :: "string \<rightharpoonup> string"
  istate :: InsightState
  abortRef :: "nat option"
  requests :: "'r request list"

definition hashKey :: "('r \<Rightarrow> string) \<Rightarrow> string \<Rightarrow> 'r \<Rightarrow> string" where
  "hashKey strfy queryType results = take 200 (queryType @ '':'' @ strfy results)"

text \<open>\<^verbatim>\<open>chunk.split('\n')\<close>.\<close>

fun split_lines :: "string \<Rightarrow> string list" where
  "split_lines [] = [[]]"
| "split_lines (c # cs) =
     (if c = CHR 0x0A then [] # split_lines cs
      else (case split_lines cs of [] \<Rightarrow> [[c]] | l # ls \<Rightarrow> (c # l) # ls))"

definition startsWith :: "string \<Rightarrow> string \<Rightarrow> bool" where
  "startsWith s p = (take (length p) s = p)"

text \<open>\<^verbatim>\<open>String.prototype.trim\<close> over the white space that fits a character of the model.\<close>

definition white_space :: "char \<Rightarrow> bool" where
  "white_space c = (c \<in> {CHR 0x09, CHR 0x0A, CHR 0x0B, CHR 0x0C, CHR 0x0D, CHR 0x20, CHR 0xA0})"

definition trim :: "string \<Rightarrow> string" where
  "trim s = rev (dropWhile white_space (rev (dropWhile white_space s)))"

text \<open>The decimal digits of a number, for \<^verbatim>\<open>`HTTP ${response.status}`\<close>.\<close>

fun decimal :: "nat \<Rightarrow> string" where
  "decimal n = (if n < 10 then [''0123456789'' ! n]
                else decimal (n div 10) @ [''0123456789'' ! (n mod 10)])"

text \<open>A value appended to a string, or made the message of an \<^verbatim>\<open>Error\<close>.\<close>

fun js_string :: "'r js_lib \<Rightarrow> jsval \<Rightarrow> string" where
  "js_string lib (JStr s) = s"
| "js_string lib v = to_string lib v"

text \<open>
  The loop over the lines of one piece of the stream. The \<^verbatim>\<open>break\<close> at the sentinel leaves
  this loop; a line that does not parse, or whose \<^verbatim>\<open>chunk\<close> is falsy, is skipped.
\<close>

fun process_lines :: "'r js_lib \<Rightarrow> string list \<Rightarrow> string \<times> InsightState \<Rightarrow> string \<times> InsightState" where
  "process_lines lib [] (accumulated, st) = (accumulated, st)"
| "process_lines lib (line # rest) (accumulated, st) =
    (if \<not> startsWith line ''data: '' then process_lines lib rest (accumulated, st)
     else let payload = trim (drop 6 line) in
       if payload = ''[DONE]'' then (accumulated, st)
       else (case json_parse lib payload of
               None \<Rightarrow> process_lines lib rest (accumulated, st)
             | Some parsed \<Rightarrow>
                 (case read_prop parsed ''chunk'' of
                    None \<Rightarrow> process_lines lib rest (accumulated, st)
                  | Some None \<Rightarrow> process_lines lib rest (accumulated, st)
                  | Some (Some v) \<Rightarrow>
                      if truthy (Some v)
                      then process_lines lib rest
                             (accumulated @ js_string lib v,
                              st\<lparr> text_value := accumulated @ js_string lib v \<rparr>)
                      else process_lines lib rest (accumulated, st))))"

definition request_at :: "'r hook \<Rightarrow> nat \<Rightarrow> 'r request option" where
  "request_at h i = (if i < length (requests h) then Some (requests h ! i) else None)"

definition set_phase :: "nat \<Rightarrow> phase \<Rightarrow> 'r hook \<Rightarrow> 'r hook" where
  "set_phase i p h =
    (if i < length (requests h)
     then h\<lparr> requests := (requests h)[i := (requests h ! i)\<lparr> phase := p \<rparr>] \<rparr> else h)"

text \<open>\<^verbatim>\<open>abortRef.current?.abort()\<close>.\<close>

definition abort_current :: "'r hook \<Rightarrow> 'r hook" where
  "abort_current h =
    (case abortRef h of None \<Rightarrow> h
     | Some i \<Rightarrow> if i < length (requests h)
         then h\<lparr> requests := (requests h)[i := (requests h ! i)\<lparr> aborted := True \<rparr>] \<rparr> else h)"

text \<open>
  The synchronous part of \<^verbatim>\<open>generate\<close>, up to the first \<^verbatim>\<open>await\<close>: the cache is looked up
  and its value tested with \<^verbatim>\<open>if (cached)\<close>, which an absent entry and the empty string both
  fail; then the previous controller is aborted, the state is reset and \<^verbatim>\<open>fetch\<close> is called.
\<close>

definition generate :: "'r js_lib \<Rightarrow> string \<Rightarrow> 'r \<Rightarrow> 'r hook \<Rightarrow> 'r hook" where
  "generate lib queryType results h =
    (let key = hashKey (stringify lib) queryType results;
         fetching = (abort_current h)\<lparr>
            abortRef := Some (length (requests h)),
            istate := \<lparr> text_value = [], isLoading = True, error_value = None \<rparr>,
            requests := requests (abort_current h) @
              [\<lparr> req_queryType = queryType, req_results = results, req_key = key,
                 aborted = False, phase = AwaitFetch \<rparr>] \<rparr>
     in case cache h key of
          None \<Rightarrow> fetching
        | Some cached \<Rightarrow>
            if cached \<noteq> [] then h\<lparr> istate := \<lparr> text_value = cached, isLoading = False, error_value = None \<rparr> \<rparr>
            else fetching)"

text \<open>The \<^verbatim>\<open>catch\<close> block of \<^verbatim>\<open>generate\<close>, which ends the request.\<close>

definition catch_error :: "nat \<Rightarrow> js_error \<Rightarrow> 'r hook \<Rightarrow> 'r hook" where
  "catch_error i e h =
    (case e of
       AbortError \<Rightarrow> set_phase i Settled h
     | JsError msg \<Rightarrow>
         (set_phase i Settled h)\<lparr> istate := (istate h)\<lparr> isLoading := False, error_value := Some msg \<rparr> \<rparr>
     | Thrown \<Rightarrow>
         (set_phase i Settled h)\<lparr> istate := (istate h)\<lparr> isLoading := False,
                                                         error_value := Some msg_generation_failed \<rparr> \<rparr>)"

text \<open>After \<^verbatim>\<open>await fetch\<close>: \<open>response.ok\<close> is a status from 200 to 299.\<close>

definition on_response :: "nat \<Rightarrow> nat \<Rightarrow> bool \<Rightarrow> 'r hook \<Rightarrow> 'r hook" where
  "on_response i status hasBody h =
    (if \<not> (200 \<le> status \<and> status \<le> 299) then set_phase i (AwaitJson status) h
     else if \<not> hasBody then catch_error i (JsError msg_no_streaming) h
     else set_phase i (AwaitRead []) h)"

text \<open>
  After \<^verbatim>\<open>await response.json().catch(() => ({}))\<close>: \<open>errorData\<close> is the parsed body, or the
  empty object when the promise was rejected, whatever the reason.
\<close>

definition on_error_body :: "'r js_lib \<Rightarrow> nat \<Rightarrow> nat \<Rightarrow> jsval \<Rightarrow> 'r hook \<Rightarrow> 'r hook" where
  "on_error_body lib i status errorData h =
    (case read_prop errorData ''detail'' of
       None \<Rightarrow> catch_error i (JsError (typeError_message lib)) h
     | Some None \<Rightarrow> catch_error i (JsError (''HTTP '' @ decimal status)) h
     | Some (Some detail) \<Rightarrow>
         if truthy (Some detail) then catch_error i (JsError (js_string lib detail)) h
         else catch_error i (JsError (''HTTP '' @ decimal status)) h)"

text \<open>
  After \<^verbatim>\<open>await reader.read()\<close>: a piece of text goes through the loop over its lines and
  the request waits for the next read; at the end of the body the accumulated text is
  written to the cache and published.
\<close>

definition on_read :: "'r js_lib \<Rightarrow> nat \<Rightarrow> string \<Rightarrow> string option \<Rightarrow> 'r hook \<Rightarrow> 'r hook" where
  "on_read lib i accumulated piece h =
    (case piece of
       Some chunk \<Rightarrow>
         (case process_lines lib (split_lines chunk) (accumulated, istate h) of
            (accumulated', st') \<Rightarrow> (set_phase i (AwaitRead accumulated') h)\<lparr> istate := st' \<rparr>)
     | None \<Rightarrow>
         (case request_at h i of
            None \<Rightarrow> h
          | Some r \<Rightarrow> (set_phase i Settled h)\<lparr>
              cache := (cache h)(req_key r \<mapsto> accumulated),
              istate := \<lparr> text_value = accumulated, isLoading = False, error_value = None \<rparr> \<rparr>))"

text \<open>\<^verbatim>\<open>clear\<close>, the cancel operation of the hook.\<close>

definition clear :: "'r hook \<Rightarrow> 'r hook" where
  "clear h = (abort_current h)\<lparr> istate := \<lparr> text_value = [], isLoading = False, error_value = None \<rparr> \<rparr>"

text \<open>
  What can happen to the hook: the caller calls \<^verbatim>\<open>generate\<close> or \<^verbatim>\<open>clear\<close>, or a promise a
  request waits for is settled. A promise of a request whose controller has been aborted
  is rejected, with the abort exception for \<^verbatim>\<open>fetch\<close> and \<^verbatim>\<open>read\<close>; without an abort these
  two are never rejected with that exception. \<open>istep\<close> is \<open>None\<close> when the event cannot
  happen in that state.
\<close>

datatype 'r ievent =
    Generate string 'r
  | Clear
  | FetchResolve nat nat bool
  | FetchReject nat js_error
  | JsonResolve nat jsval
  | JsonReject nat
  | ReadResolve nat "string option"
  | ReadReject nat js_error

definition waiting :: "'r hook \<Rightarrow> nat \<Rightarrow> (bool \<times> phase) option" where
  "waiting h i = map_option (\<lambda>r. (aborted r, phase r)) (request_at h i)"

fun istep :: "'r js_lib \<Rightarrow> 'r ievent \<Rightarrow> 'r hook \<Rightarrow> 'r hook option" where
  "istep lib (Generate queryType results) h = Some (generate lib queryType results h)"
| "istep lib Clear h = Some (clear h)"
| "istep lib (FetchResolve i status hasBody) h =
     (case waiting h i of
        Some (False, AwaitFetch) \<Rightarrow> Some (on_response i status hasBody h)
      | _ \<Rightarrow> None)"
| "istep lib (FetchReject i e) h =
     (case waiting h i of
        Some (ab, AwaitFetch) \<Rightarrow> if ab = (e = AbortError) then Some (catch_error i e h) else None
      | _ \<Rightarrow> None)"
| "istep lib (JsonResolve i v) h =
     (case waiting h i of
        Some (False, AwaitJson status) \<Rightarrow> Some (on_error_body lib i status v h)
      | _ \<Rightarrow> None)"
| "istep lib (JsonReject i) h =
     (case waiting h i of
        Some (ab, AwaitJson status) \<Rightarrow> Some (on_error_body lib i status (JObj []) h)
      | _ \<Rightarrow> None)"
| "istep lib (ReadResolve i piece) h =
     (case waiting h i of
        Some (False, AwaitRead accumulated) \<Rightarrow> Some (on_read lib i accumulated piece h)
      | _ \<Rightarrow> None)"
| "istep lib (ReadReject i e) h =
     (case waiting h i of
        Some (ab, AwaitRead accumulated) \<Rightarrow>
          if ab = (e = AbortError) then Some (catch_error i e h) else None
      | _ \<Rightarrow> None)"

fun irun :: "'r js_lib \<Rightarrow> 'r ievent list \<Rightarrow> 'r hook \<Rightarrow> 'r hook option" where
  "irun lib [] h = Some h"
| "irun lib (e # es) h = (case istep lib e h of None \<Rightarrow> None | Some h' \<Rightarrow> irun lib es h')"

text \<open>A hook that has issued no request yet, over a given cache.\<close>

definition fresh :: "(string \<rightharpoonup> string) \<Rightarrow> 'r hook" where
  "fresh c = \<lparr> cache = c,
     istate = \<lparr> text_value = [], isLoading = False, error_value = None \<rparr>,
     abortRef = None, requests = [] \<rparr>"

section \<open>Notions used in the statements\<close>

text \<open>How many entries of a \<^verbatim>\<open>Map\<close> carry a given key.\<close>

definition occurrences :: "jsval option \<Rightarrow> (jsval option \<times> 'v) list \<Rightarrow> nat" where
  "occurrences k m = length (filter (\<lambda>e. fst e = k) m)"

text \<open>A field of the record that the equipment map holds for an equipment id.\<close>

definition stored_field :: "string \<Rightarrow> jsval option \<Rightarrow> RealtimeState \<Rightarrow> jsval option" where
  "stored_field name k s =
    (case map_get k (equipmentStatuses s) of None \<Rightarrow> None | Some r \<Rightarrow> peek r name)"

text \<open>Two status updates for the same equipment, as a server may send them.\<close>

definition update_running :: jsval where
  "update_running = JObj [(''message_id'', JStr ''m1''), (''stream_type'', JStr ''equipment_status''),
     (''timestamp'', JStr ''2024-01-01T00:00:00''),
     (''data'', JObj [(''equipment_id'', JStr ''EQ-1''), (''status'', JStr ''RUNNING''),
                      (''previous_status'', JStr ''IDLE'')]),
     (''priority'', JNum 1)]"

definition update_down :: jsval where
  "update_down = JObj [(''message_id'', JStr ''m2''), (''stream_type'', JStr ''equipment_status''),
     (''timestamp'', JStr ''2024-01-01T00:00:05''),
     (''data'', JObj [(''equipment_id'', JStr ''EQ-1''), (''status'', JStr ''DOWN''),
                      (''previous_status'', JStr ''MAINTENANCE'')]),
     (''priority'', JNum 1)]"

text \<open>A WIP movement message for a lot, and a message of a type the switch does not know.\<close>

definition wip_message :: "string \<Rightarrow> jsval" where
  "wip_message lot = JObj [(''message_id'', JStr lot), (''stream_type'', JStr ''wip_movement''),
     (''timestamp'', JStr []), (''data'', JObj [(''lot_id'', JStr lot)]), (''priority'', JNum 0)]"


text \<open>A heartbeat as the server sends it, and one that parses but carries no \<open>data\<close>.\<close>

definition heartbeat_message :: jsval where
  "heartbeat_message = JObj [(''message_id'', JStr ''m0''), (''stream_type'', JStr ''heartbeat''),
     (''timestamp'', JStr []), (''data'', JObj [(''connection_id'', JStr ''c-1'')]),
     (''priority'', JNum 0)]"


text \<open>No primitive key is held twice: what \<^verbatim>\<open>Map\<close> guarantees for such keys.\<close>

definition keys_unique :: "(jsval option \<times> 'v) list \<Rightarrow> bool" where
  "keys_unique m = (\<forall>k. primitive k \<longrightarrow> occurrences k m \<le> 1)"

text \<open>The options the hook uses when the caller gives none.\<close>

definition default_options :: UseRealtimeOptions where
  "default_options = \<lparr> reconnectInterval = 3000, maxReconnectAttempts = 5 \<rparr>"

text \<open>Every socket the hook has constructed is closed.\<close>

definition all_closed :: "client \<Rightarrow> bool" where
  "all_closed c = (\<forall>i < length (sockets c). sockets c ! i = CLOSED)"

text \<open>
  The shape of the states of the retry chain that a single call of \<^verbatim>\<open>connect\<close> starts:
  only the newest socket can be alive, and a timer is pending only while no socket is
  alive; it is then the one whose handle is stored.
\<close>

definition retry_chain :: "client \<Rightarrow> bool" where
  "retry_chain c =
    ((\<forall>i < length (sockets c). sockets c ! i \<noteq> CLOSED \<longrightarrow> Suc i = length (sockets c))
     \<and> (pendingTimers c = [] \<or>
         (pendingTimers c = [timerSeq c] \<and> reconnectTimeoutRef c = Some (timerSeq c)
          \<and> all_closed c)))"

text \<open>
  A run with the default options in which the caller calls \<^verbatim>\<open>connect\<close> once more while the
  first retry is pending: the first socket closes (timer 1), \<^verbatim>\<open>connect\<close>, the second
  socket closes (timer 2), and then five retries fail one after the other, driven by timer
  1 and its successors, while timer 2 stays pending. The last close finds the counter at
  the maximum.
\<close>

definition retries_beside_stale_timer :: "event list" where
  "retries_beside_stale_timer =
     [SockClose 0, Connect, SockClose 1,
      TimerFire 1, SockClose 2, TimerFire 3, SockClose 3, TimerFire 4, SockClose 4,
      TimerFire 5, SockClose 5, TimerFire 6, SockClose 6]"

text \<open>The stored stream data of the state, apart from connection status and id.\<close>

definition stored_data :: "RealtimeState \<Rightarrow>
    jsval option \<times> (jsval option \<times> jsval option) list \<times> jsval option list \<times> jsval option list
      \<times> jsval option \<times> nat \<times> nat option" where
  "stored_data s = (lastYieldUpdate s, equipmentStatuses s, recentWIPMovements s, activeAlerts s,
                    metrics s, messageCount s, lastMessageAt s)"

text \<open>Events of the connection life cycle, as opposed to inbound frames.\<close>

fun lifecycle :: "event \<Rightarrow> bool" where
  "lifecycle (SockMessage i now frame) = False"
| "lifecycle _ = True"

text \<open>An open connection that has received a heartbeat and one WIP movement.\<close>

definition live_with_data :: client where
  "live_with_data = the (run default_options
     [SockOpen 0, SockMessage 0 10 (Some heartbeat_message),
      SockMessage 0 11 (Some (wip_message ''L1''))] (connect mounted))"

text \<open>The cache entry that a call of \<^verbatim>\<open>generate\<close> with these arguments looks up.\<close>

definition cached_for :: "'r js_lib \<Rightarrow> string \<Rightarrow> 'r \<Rightarrow> 'r hook \<Rightarrow> string option" where
  "cached_for lib queryType results h = cache h (hashKey (stringify lib) queryType results)"

text \<open>The request whose promise an event settles.\<close>

fun settles :: "'r ievent \<Rightarrow> nat option" where
  "settles (Generate queryType results) = None"
| "settles Clear = None"
| "settles (FetchResolve i status hasBody) = Some i"
| "settles (FetchReject i e) = Some i"
| "settles (JsonResolve i v) = Some i"
| "settles (JsonReject i) = Some i"
| "settles (ReadResolve i piece) = Some i"
| "settles (ReadReject i e) = Some i"

text \<open>
  A platform for concrete runs: it parses one payload the way \<^verbatim>\<open>JSON.parse\<close> does and
  rejects every other string, and serialises the empty object.
\<close>

definition example_lib :: "jsval js_lib" where
  \<open>example_lib = \<lparr> stringify = (\<lambda>v. if v = JObj [] then ''{}'' else ''null''),
     json_parse = (\<lambda>s.
        if s = ''{"chunk":"late"}'' then Some (JObj [(''chunk'', JStr ''late'')])
        else None),
     to_string = (\<lambda>v. []),
     typeError_message = ''Cannot read properties of null'' \<rparr>\<close>

text \<open>Two query types that differ only after their 200th character.\<close>

definition long_query_a :: string where
  "long_query_a = replicate 200 (CHR ''q'') @ ''A''"

definition long_query_b :: string where
  "long_query_b = replicate 200 (CHR ''q'') @ ''B''"

section \<open>The state store: bounded lists, upsert, counters\<close>

lemma take_append_take: "take n (xs @ take n ys) = take n (xs @ ys)"
  by (simp add: min_def)

lemma stream_type_read:
  "stream_type m = Some t \<Longrightarrow> read_prop m ''stream_type'' = Some (Some t)"
  by (cases m) (auto simp: stream_type_def peek_def)

lemma handleMessage_wip:
  "stream_type m = Some (JStr ''wip_movement'') \<Longrightarrow>
   handleMessage now m s =
     Some (s\<lparr> messageCount := messageCount s + 1, lastMessageAt := Some now,
              recentWIPMovements := take 50 (data m # recentWIPMovements s) \<rparr>)"
  by (simp add: handleMessage_def Let_def stream_type_read)

lemma handleMessages_wip:
  "\<forall>p \<in> set ms. stream_type (snd p) = Some (JStr ''wip_movement'') \<Longrightarrow>
   length (recentWIPMovements s) \<le> 50 \<Longrightarrow>
   \<exists>s'. handleMessages ms s = Some s' \<and>
     recentWIPMovements s' = take 50 (rev (map (\<lambda>p. data (snd p)) ms) @ recentWIPMovements s)"
proof (induction ms arbitrary: s)
  case Nil
  then show ?case by simp
next
  case (Cons p ms)
  obtain now m where p: "p = (now, m)" by (cases p)
  let ?s1 = "s\<lparr> messageCount := messageCount s + 1, lastMessageAt := Some now,
              recentWIPMovements := take 50 (data m # recentWIPMovements s) \<rparr>"
  let ?ds = "rev (map (\<lambda>p. data (snd p)) ms)"
  have wip: "stream_type m = Some (JStr ''wip_movement'')" using Cons.prems(1) p by simp
  have step: "handleMessage now m s = Some ?s1" by (rule handleMessage_wip [OF wip])
  have len: "length (recentWIPMovements ?s1) \<le> 50" by simp
  have rest: "\<forall>p \<in> set ms. stream_type (snd p) = Some (JStr ''wip_movement'')"
    using Cons.prems(1) by simp
  from Cons.IH [OF rest len] obtain s' where run: "handleMessages ms ?s1 = Some s'"
    and r: "recentWIPMovements s' = take 50 (?ds @ recentWIPMovements ?s1)" by blast
  have "recentWIPMovements s' = take 50 (?ds @ take 50 (data m # recentWIPMovements s))"
    using r by simp
  also have "\<dots> = take 50 (?ds @ data m # recentWIPMovements s)"
    by (rule take_append_take)
  also have "?ds @ data m # recentWIPMovements s =
             rev (map (\<lambda>p. data (snd p)) (p # ms)) @ recentWIPMovements s"
    using p by simp
  finally have "recentWIPMovements s' =
      take 50 (rev (map (\<lambda>p. data (snd p)) (p # ms)) @ recentWIPMovements s)" .
  moreover have "handleMessages (p # ms) s = Some s'" using p step run by simp
  ultimately show ?case by blast
qed

lemma prepend_evicts_oldest:
  "length xs = min n 50 \<Longrightarrow> take 50 (d # xs) = d # (if n < 50 then xs else butlast xs)"
  by (simp add: butlast_conv_take min_def split: if_splits)

text \<open>
  C3. Any sequence of \<open>wip_movement\<close> messages applied to the initial state is processed
  without an error; afterwards the WIP list has \<open>min N 50\<close> entries and is the payloads in
  reverse arrival order cut to the first 50 (newest first); one more such message is put in
  front, and once 50 are held the last, oldest, entry is dropped.
\<close>

theorem wip_movements_bounded_newest_first:
  assumes "\<forall>p \<in> set ms. stream_type (snd p) = Some (JStr ''wip_movement'')"
  shows "\<exists>s. handleMessages ms initialState = Some s
    \<and> length (recentWIPMovements s) = min (length ms) 50
    \<and> recentWIPMovements s = take 50 (rev (map (\<lambda>p. data (snd p)) ms))
    \<and> (stream_type m = Some (JStr ''wip_movement'') \<longrightarrow>
         (\<exists>s'. handleMessage now m s = Some s'
            \<and> recentWIPMovements s' =
                data m # (if length ms < 50 then recentWIPMovements s
                          else butlast (recentWIPMovements s))))"
proof -
  have "length (recentWIPMovements initialState) \<le> 50" by (simp add: initialState_def)
  from handleMessages_wip [OF assms this] obtain s where run: "handleMessages ms initialState = Some s"
    and "recentWIPMovements s =
        take 50 (rev (map (\<lambda>p. data (snd p)) ms) @ recentWIPMovements initialState)" by blast
  then have eq: "recentWIPMovements s = take 50 (rev (map (\<lambda>p. data (snd p)) ms))"
    by (simp add: initialState_def)
  have len: "length (recentWIPMovements s) = min (length ms) 50" unfolding eq by simp
  have next_one: "\<exists>s'. handleMessage now m s = Some s'
            \<and> recentWIPMovements s' =
                data m # (if length ms < 50 then recentWIPMovements s
                          else butlast (recentWIPMovements s))"
    if "stream_type m = Some (JStr ''wip_movement'')"
    using handleMessage_wip [OF that, of now s] prepend_evicts_oldest [OF len, of "data m"]
    by simp
  show ?thesis using run eq len next_one by blast
qed

theorem wip_movements_bounded_newest_first_witness:
  "list_all (\<lambda>p. stream_type (snd p) = Some (JStr ''wip_movement''))
      [(1, wip_message ''L1''), (2, wip_message ''L2''), (3, wip_message ''L3'')]
   \<and> map_option recentWIPMovements
        (handleMessages [(1, wip_message ''L1''), (2, wip_message ''L2''), (3, wip_message ''L3'')]
           initialState)
      = Some [Some (JObj [(''lot_id'', JStr ''L3'')]), Some (JObj [(''lot_id'', JStr ''L2'')]),
              Some (JObj [(''lot_id'', JStr ''L1'')])]"
proof -
  have h: "\<forall>p \<in> set [(1::nat, wip_message ''L1''), (2, wip_message ''L2''), (3, wip_message ''L3'')].
      stream_type (snd p) = Some (JStr ''wip_movement'')"
    by (simp add: wip_message_def stream_type_def peek_def get_def)
  from wip_movements_bounded_newest_first [OF h]
  obtain s where "handleMessages [(1, wip_message ''L1''), (2, wip_message ''L2''), (3, wip_message ''L3'')]
           initialState = Some s"
    and "recentWIPMovements s = take 50 (rev (map (\<lambda>p. data (snd p))
           [(1::nat, wip_message ''L1''), (2, wip_message ''L2''), (3, wip_message ''L3'')]))"
    by blast
  then show ?thesis using h
    by (simp add: wip_message_def data_def peek_def get_def del: handleMessages.simps)
qed

lemma sameValueZero_primitive: "primitive k \<Longrightarrow> sameValueZero k' k = (k' = k)"
  by (auto simp: sameValueZero_def)

lemma map_get_map_set: "primitive k \<Longrightarrow> map_get k (map_set k v m) = Some v"
  by (induction m) (auto simp: sameValueZero_primitive)

lemma occurrences_map_set_same:
  "primitive k \<Longrightarrow>
   occurrences k (map_set k v m) = (if occurrences k m = 0 then 1 else occurrences k m)"
  by (induction m) (auto simp: sameValueZero_primitive occurrences_def)

lemma occurrences_map_set_other:
  "k \<noteq> k' \<Longrightarrow> occurrences k (map_set k' v m) = occurrences k m"
  by (induction m) (auto simp: sameValueZero_def occurrences_def)

lemma keys_unique_map_set: "keys_unique m \<Longrightarrow> keys_unique (map_set k' v m)"
  unfolding keys_unique_def
proof (intro allI impI)
  fix k assume a: "\<forall>k. primitive k \<longrightarrow> occurrences k m \<le> 1" and p: "primitive k"
  show "occurrences k (map_set k' v m) \<le> 1"
  proof (cases "k = k'")
    case True
    then show ?thesis using a p by (simp add: occurrences_map_set_same)
  next
    case False
    then show ?thesis using a p by (simp add: occurrences_map_set_other)
  qed
qed

lemma keys_unique_handleMessage:
  "keys_unique (equipmentStatuses s) \<Longrightarrow> handleMessage now m s = Some s' \<Longrightarrow>
   keys_unique (equipmentStatuses s')"
  by (auto simp: handleMessage_def Let_def keys_unique_map_set split: option.splits if_splits)

lemma keys_unique_handleMessages:
  "keys_unique (equipmentStatuses s) \<Longrightarrow> handleMessages ms s = Some s' \<Longrightarrow>
   keys_unique (equipmentStatuses s')"
proof (induction ms arbitrary: s)
  case Nil
  then show ?case by simp
next
  case (Cons p ms)
  obtain now m where p: "p = (now, m)" by (cases p)
  from Cons.prems(2) p obtain s1 where s1: "handleMessage now m s = Some s1"
    and r: "handleMessages ms s1 = Some s'" by (auto split: option.splits)
  show ?case by (rule Cons.IH [OF keys_unique_handleMessage [OF Cons.prems(1) s1] r])
qed

lemma handleMessages_append:
  "handleMessages (xs @ ys) s =
     (case handleMessages xs s of None \<Rightarrow> None | Some s' \<Rightarrow> handleMessages ys s')"
  by (induction xs arbitrary: s) (auto split: option.splits)

lemma peek_deref: "peek d name = Some v \<Longrightarrow> deref d name = Some (Some v)"
  by (auto simp: peek_def split: option.splits)

lemma handleMessage_equipment:
  "stream_type m = Some (JStr ''equipment_status'') \<Longrightarrow> peek (data m) ''equipment_id'' = Some k \<Longrightarrow>
   handleMessage now m s =
     Some (s\<lparr> messageCount := messageCount s + 1, lastMessageAt := Some now,
              equipmentStatuses := map_set (Some k) (data m) (equipmentStatuses s) \<rparr>)"
  by (simp add: handleMessage_def Let_def stream_type_read peek_deref)

text \<open>
  C4, as the code has it. After two \<open>equipment_status\<close> messages with the same string
  equipment id, whatever was processed before them, the equipment map holds exactly one
  entry for that id and it is the payload of the later message as it was sent; so its
  \<open>previous_status\<close> is the one the later message carries. The hook never reads the
  superseded record.
\<close>

theorem equipment_upsert_keeps_later_message:
  assumes "stream_type m1 = Some (JStr ''equipment_status'')"
    and "stream_type m2 = Some (JStr ''equipment_status'')"
    and "peek (data m1) ''equipment_id'' = Some (JStr eid)"
    and "peek (data m2) ''equipment_id'' = Some (JStr eid)"
    and "handleMessages ms initialState = Some s0"
  shows "\<exists>s. handleMessages (ms @ [(t1, m1), (t2, m2)]) initialState = Some s
       \<and> map_get (Some (JStr eid)) (equipmentStatuses s) = Some (data m2)
       \<and> occurrences (Some (JStr eid)) (equipmentStatuses s) = 1
       \<and> stored_field ''previous_status'' (Some (JStr eid)) s = peek (data m2) ''previous_status''"
proof -
  let ?k = "Some (JStr eid)"
  let ?s1 = "s0\<lparr> messageCount := messageCount s0 + 1, lastMessageAt := Some t1,
              equipmentStatuses := map_set ?k (data m1) (equipmentStatuses s0) \<rparr>"
  let ?s2 = "?s1\<lparr> messageCount := messageCount ?s1 + 1, lastMessageAt := Some t2,
              equipmentStatuses := map_set ?k (data m2) (equipmentStatuses ?s1) \<rparr>"
  have h1: "handleMessage t1 m1 s0 = Some ?s1" by (rule handleMessage_equipment [OF assms(1,3)])
  have h2: "handleMessage t2 m2 ?s1 = Some ?s2" by (rule handleMessage_equipment [OF assms(2,4)])
  have fin: "handleMessages (ms @ [(t1, m1), (t2, m2)]) initialState = Some ?s2"
    using assms(5) h1 h2 by (simp add: handleMessages_append)
  have prim: "primitive ?k" by simp
  have u0: "keys_unique (equipmentStatuses s0)"
    by (rule keys_unique_handleMessages [OF _ assms(5)])
       (simp add: keys_unique_def initialState_def occurrences_def)
  have u1: "keys_unique (equipmentStatuses ?s1)" by (rule keys_unique_handleMessage [OF u0 h1])
  have e2: "equipmentStatuses ?s2 = map_set ?k (data m2) (equipmentStatuses ?s1)" by simp
  have g: "map_get ?k (equipmentStatuses ?s2) = Some (data m2)"
    unfolding e2 by (rule map_get_map_set [OF prim])
  have "occurrences ?k (equipmentStatuses ?s1) \<le> 1" using u1 prim by (simp add: keys_unique_def)
  then have o: "occurrences ?k (equipmentStatuses ?s2) = 1"
    unfolding e2 by (simp add: occurrences_map_set_same [OF prim])
  have f: "stored_field ''previous_status'' ?k ?s2 = peek (data m2) ''previous_status''"
    using g by (simp add: stored_field_def)
  show ?thesis using fin g o f by blast
qed

theorem equipment_upsert_keeps_later_message_witness:
  "stream_type update_running = Some (JStr ''equipment_status'')
   \<and> stream_type update_down = Some (JStr ''equipment_status'')
   \<and> peek (data update_running) ''equipment_id'' = Some (JStr ''EQ-1'')
   \<and> peek (data update_down) ''equipment_id'' = Some (JStr ''EQ-1'')
   \<and> handleMessages [] initialState = Some initialState
   \<and> (\<exists>s. handleMessages ([] @ [(1, update_running), (2, update_down)]) initialState = Some s
        \<and> map_get (Some (JStr ''EQ-1'')) (equipmentStatuses s) = Some (data update_down)
        \<and> stored_field ''previous_status'' (Some (JStr ''EQ-1'')) s = Some (JStr ''MAINTENANCE''))"
proof -
  have a: "stream_type update_running = Some (JStr ''equipment_status'')"
    "stream_type update_down = Some (JStr ''equipment_status'')"
    "peek (data update_running) ''equipment_id'' = Some (JStr ''EQ-1'')"
    "peek (data update_down) ''equipment_id'' = Some (JStr ''EQ-1'')"
    by (simp_all add: update_running_def update_down_def stream_type_def data_def peek_def get_def)
  have b: "handleMessages [] initialState = Some initialState" by simp
  have c: "peek (data update_down) ''previous_status'' = Some (JStr ''MAINTENANCE'')"
    by (simp add: update_down_def data_def peek_def get_def)
  from equipment_upsert_keeps_later_message [OF a b, of 1 2]
  show ?thesis using a b c by (auto simp del: handleMessages.simps)
qed

text \<open>
  C4 as stated fails: the server reports RUNNING and then DOWN for EQ-1, the second message
  naming MAINTENANCE as the previous status. The stored \<open>previous_status\<close> is the
  MAINTENANCE of the message, not the RUNNING of the record it replaced.
\<close>

theorem previous_status_not_derived:
  "map_option (stored_field ''previous_status'' (Some (JStr ''EQ-1'')))
     (handleMessages [(1, update_running), (2, update_down)] initialState)
     = Some (Some (JStr ''MAINTENANCE''))
   \<and> map_option (stored_field ''status'' (Some (JStr ''EQ-1'')))
     (handleMessages [(1, update_running)] initialState) = Some (Some (JStr ''RUNNING''))"
  by (simp add: stored_field_def handleMessage_def update_running_def update_down_def get_def
      data_def peek_def initialState_def sameValueZero_def)




section \<open>The connection manager: retries, timers, what a close touches\<close>

lemma retry_chain_start: "retry_chain (connect mounted)"
  by (simp add: retry_chain_def connect_def mounted_def setStatus_def all_closed_def)

lemma retry_chain_open:
  assumes "retry_chain c" "step opts (SockOpen i) c = Some c'"
  shows "retry_chain c'"
proof -
  from assms(2) have en: "i < length (sockets c)" "sockets c ! i = CONNECTING"
    and c': "c' = onopen (c\<lparr> sockets := (sockets c)[i := OPEN] \<rparr>)"
    by (auto simp: readyState_of_def split: if_splits)
  from assms(1) en have nt: "pendingTimers c = []"
    by (auto simp: retry_chain_def all_closed_def)
  show ?thesis using assms(1) en nt unfolding c'
    by (auto simp: retry_chain_def onopen_def setStatus_def nth_list_update)
qed

lemma update_closes_all:
  "\<forall>j < length xs. j \<noteq> i \<longrightarrow> xs ! j = CLOSED \<Longrightarrow> j < length xs \<Longrightarrow> xs[i := CLOSED] ! j = CLOSED"
  by (cases "j = i") simp_all

lemma retry_chain_close:
  assumes "retry_chain c" "step opts (SockClose i) c = Some c'"
  shows "retry_chain c'"
proof -
  from assms(2) have en: "i < length (sockets c)" "sockets c ! i \<noteq> CLOSED"
    and c': "c' = onclose opts (c\<lparr> sockets := (sockets c)[i := CLOSED] \<rparr>)"
    by (auto simp: readyState_of_def split: if_splits)
  from assms(1) en have nt: "pendingTimers c = []"
    by (auto simp: retry_chain_def all_closed_def)
  from assms(1) have only_last:
    "\<forall>j < length (sockets c). sockets c ! j \<noteq> CLOSED \<longrightarrow> Suc j = length (sockets c)"
    by (simp add: retry_chain_def)
  have last: "\<forall>j < length (sockets c). j \<noteq> i \<longrightarrow> sockets c ! j = CLOSED"
  proof (intro allI impI)
    fix j assume j: "j < length (sockets c)" "j \<noteq> i"
    show "sockets c ! j = CLOSED"
    proof (rule ccontr)
      assume "sockets c ! j \<noteq> CLOSED"
      then have "Suc j = length (sockets c)" using only_last j by blast
      moreover have "Suc i = length (sockets c)" using only_last en by blast
      ultimately show False using j by simp
    qed
  qed
  show "retry_chain c'" using nt update_closes_all [OF last] unfolding c'
    by (simp add: retry_chain_def all_closed_def onclose_def Let_def setStatus_def)
qed

lemma retry_chain_timer:
  assumes "retry_chain c" "step opts (TimerFire t) c = Some c'"
  shows "retry_chain c'"
proof -
  from assms(2) have en: "t \<in> set (pendingTimers c)"
    and c': "c' = ontimeout (c\<lparr> pendingTimers := removeAll t (pendingTimers c) \<rparr>)"
    by (auto split: if_splits)
  from assms(1) en have pt: "pendingTimers c = [t]" "all_closed c"
    by (auto simp: retry_chain_def)
  have notopen: "\<not> (case wsRef c of None \<Rightarrow> False
      | Some i \<Rightarrow> readyState_of (c\<lparr>pendingTimers := [],
                     reconnectAttemptsRef := reconnectAttemptsRef c + 1\<rparr>) i = Some OPEN)"
    using pt(2) by (auto simp: all_closed_def readyState_of_def split: option.splits)
  show ?thesis using pt notopen unfolding c'
    by (auto simp: retry_chain_def all_closed_def ontimeout_def connect_def setStatus_def nth_append)
qed

lemma retry_chain_message:
  assumes "retry_chain c" "step opts (SockMessage i now frame) c = Some c'"
  shows "retry_chain c'"
  using assms
  by (auto simp: retry_chain_def all_closed_def onmessage_ws_def split: if_splits option.splits)

lemma ws_close_length: "length (ws_close i socks) = length socks"
  by (simp add: ws_close_def)

lemma ws_close_nth: "j < length socks \<Longrightarrow> (ws_close i socks ! j = CLOSED) = (socks ! j = CLOSED)"
  by (auto simp: ws_close_def nth_list_update)

lemma retry_chain_disconnect:
  assumes "retry_chain c"
  shows "retry_chain (disconnect opts c)"
  using assms
  by (auto simp: retry_chain_def all_closed_def disconnect_def ws_close_length ws_close_nth split: option.splits)

lemma retry_chain_step:
  assumes "retry_chain c" "e \<noteq> Connect" "step opts e c = Some c'"
  shows "retry_chain c'"
proof (cases e)
  case Connect
  then show ?thesis using assms(2) by simp
next
  case Disconnect
  then show ?thesis using assms(1,3) retry_chain_disconnect by auto
next
  case (SockOpen i)
  then show ?thesis using assms(1,3) retry_chain_open by blast
next
  case (SockClose i)
  then show ?thesis using assms(1,3) retry_chain_close by blast
next
  case (SockMessage i now frame)
  then show ?thesis using assms(1,3) retry_chain_message by blast
next
  case (TimerFire t)
  then show ?thesis using assms(1,3) retry_chain_timer by blast
qed

lemma retry_chain_run:
  "retry_chain c \<Longrightarrow> Connect \<notin> set es \<Longrightarrow> run opts es c = Some c' \<Longrightarrow> retry_chain c'"
proof (induction es arbitrary: c)
  case Nil
  then show ?case by simp
next
  case (Cons e es)
  then obtain c1 where s: "step opts e c = Some c1" and r: "run opts es c1 = Some c'"
    by (auto split: option.splits)
  have "e \<noteq> Connect" using Cons.prems(2) by auto
  then have "retry_chain c1" using retry_chain_step [OF Cons.prems(1) _ s] by simp
  then show ?case using Cons.IH r Cons.prems(2) by simp
qed

lemma retry_chain_one_timer:
  "Connect \<notin> set es \<Longrightarrow> run opts es (connect mounted) = Some c \<Longrightarrow> length (pendingTimers c) \<le> 1"
  using retry_chain_run [OF retry_chain_start, of es opts c] by (auto simp: retry_chain_def)

text \<open>
  C2 fails on the code, by the defect of C7. With the default maximum of 5: after the
  run of C7 (close, \<^verbatim>\<open>connect\<close>, close, \<^verbatim>\<open>disconnect\<close>) the stale timer 1 fires and the
  counter is 6. And when, beside the stale timer 2, five retries have failed, the last
  close finds the counter at 5 and sets the status to disconnected; timer 2 is still
  pending, and when it fires, with no call of \<^verbatim>\<open>connect\<close> after that close, an eighth
  socket is constructed, the status is connecting and the counter is 6.
\<close>

theorem counter_exceeds_maximum_beside_stale_timer:
  "maxReconnectAttempts default_options = 5
   \<and> map_option reconnectAttemptsRef
       (run default_options [SockClose 0, Connect, SockClose 1, Disconnect, TimerFire 1]
          (connect mounted)) = Some 6
   \<and> map_option reconnectAttemptsRef
       (run default_options retries_beside_stale_timer (connect mounted)) = Some 5
   \<and> map_option (connectionStatus \<circ> state)
       (run default_options retries_beside_stale_timer (connect mounted)) = Some Disconnected
   \<and> map_option pendingTimers
       (run default_options retries_beside_stale_timer (connect mounted)) = Some [2]
   \<and> map_option (length \<circ> sockets)
       (run default_options retries_beside_stale_timer (connect mounted)) = Some 7
   \<and> map_option (length \<circ> sockets)
       (run default_options (retries_beside_stale_timer @ [TimerFire 2]) (connect mounted)) = Some 8
   \<and> map_option (connectionStatus \<circ> state)
       (run default_options (retries_beside_stale_timer @ [TimerFire 2]) (connect mounted))
       = Some Connecting
   \<and> map_option reconnectAttemptsRef
       (run default_options (retries_beside_stale_timer @ [TimerFire 2]) (connect mounted)) = Some 6"
  by (simp add: retries_beside_stale_timer_def default_options_def connect_def mounted_def
      setStatus_def readyState_of_def onclose_def ontimeout_def disconnect_def initialState_def
      ws_close_def)

text \<open>
  C7 fails on the code. \<^verbatim>\<open>onclose\<close> starts a timer without clearing the one whose
  handle it overwrites. With the default options: the first socket closes (timer 1), the
  caller calls \<^verbatim>\<open>connect\<close> while that retry is pending, the second socket closes (timer
  2): two timers are pending. \<^verbatim>\<open>disconnect\<close> clears timer 2 only, and when timer 1 fires a
  third socket is constructed after the explicit disconnect. As long as \<^verbatim>\<open>connect\<close> is not
  called again, at most one timer is pending (\<open>retry_chain_one_timer\<close>).
\<close>

theorem stale_timer_survives_disconnect:
  "map_option pendingTimers
     (run default_options [SockClose 0, Connect, SockClose 1] (connect mounted)) = Some [1, 2]
   \<and> map_option pendingTimers
     (run default_options [SockClose 0, Connect, SockClose 1, Disconnect] (connect mounted)) = Some [1]
   \<and> map_option sockets
     (run default_options [SockClose 0, Connect, SockClose 1, Disconnect, TimerFire 1] (connect mounted))
       = Some [CLOSED, CLOSED, CONNECTING]"
  by (simp add: default_options_def connect_def mounted_def setStatus_def readyState_of_def
      onclose_def ontimeout_def disconnect_def initialState_def ws_close_def)

text \<open>
  C9 as stated fails: the close handler sets \<open>connectionId\<close> to \<^verbatim>\<open>null\<close>. After a
  heartbeat the id is c-1; after the close of that socket it is gone.
\<close>

theorem close_resets_connection_id:
  "map_option (connectionId \<circ> state)
     (run default_options [SockOpen 0, SockMessage 0 10 (Some heartbeat_message)] (connect mounted))
     = Some (Some (JStr ''c-1''))
   \<and> map_option (connectionId \<circ> state)
     (run default_options [SockOpen 0, SockMessage 0 10 (Some heartbeat_message), SockClose 0]
        (connect mounted)) = Some (Some JNull)"
  by (simp add: default_options_def connect_def mounted_def setStatus_def readyState_of_def
      onclose_def onopen_def onmessage_ws_def handleMessage_def heartbeat_message_def get_def
      data_def peek_def initialState_def onAlert_calls_def stream_type_def)

text \<open>
  C9, as the code has it. The close handler leaves the yield snapshot, the equipment map,
  the WIP list, the alert list, the metrics snapshot, the message counter and the time of
  the last message as they are, and resets the connection id; no event of the connection
  life cycle (connect, disconnect, open, close, retry timer) changes that stored data, and
  \<^verbatim>\<open>disconnect\<close> itself changes nothing of the state; \<^verbatim>\<open>clearAlerts\<close> and \<^verbatim>\<open>dismissAlert\<close>
  change the alert list and nothing else.
\<close>

theorem close_keeps_stored_data:
  "(step opts (SockClose i) c = Some c' \<longrightarrow>
      stored_data (state c') = stored_data (state c) \<and> connectionId (state c') = Some JNull)
   \<and> (lifecycle e \<and> step opts e c = Some c'' \<longrightarrow> stored_data (state c'') = stored_data (state c))
   \<and> state (disconnect opts c) = state c
   \<and> clearAlerts s = s\<lparr> activeAlerts := [] \<rparr>
   \<and> (dismissAlert a s = Some s' \<longrightarrow>
        s' = s\<lparr> activeAlerts :=
               filter (\<lambda>x. deref x ''alert_id'' \<noteq> Some (Some (JStr a))) (activeAlerts s) \<rparr>)"
proof -
  have 1: "stored_data (state c') = stored_data (state c) \<and> connectionId (state c') = Some JNull"
    if "step opts (SockClose i) c = Some c'"
    using that by (auto simp: stored_data_def onclose_def Let_def setStatus_def split: if_splits)
  have 2: "stored_data (state c'') = stored_data (state c)"
    if "lifecycle e" "step opts e c = Some c''"
    using that
    by (cases e) (auto simp: stored_data_def onclose_def onopen_def ontimeout_def connect_def
        disconnect_def Let_def setStatus_def split: if_splits)
  have 3: "state (disconnect opts c) = state c" by (simp add: disconnect_def)
  have 4: "s' = s\<lparr> activeAlerts :=
               filter (\<lambda>x. deref x ''alert_id'' \<noteq> Some (Some (JStr a))) (activeAlerts s) \<rparr>"
    if "dismissAlert a s = Some s'"
    using that by (auto simp: dismissAlert_def split: if_splits)
  show ?thesis using 1 2 3 4 by (simp add: clearAlerts_def)
qed

theorem close_keeps_stored_data_witness:
  "step default_options (SockClose 0) live_with_data \<noteq> None
   \<and> recentWIPMovements (state (the (step default_options (SockClose 0) live_with_data)))
       = [Some (JObj [(''lot_id'', JStr ''L1'')])]
   \<and> messageCount (state (the (step default_options (SockClose 0) live_with_data))) = 2
   \<and> connectionId (state live_with_data) = Some (JStr ''c-1'')
   \<and> connectionId (state (the (step default_options (SockClose 0) live_with_data))) = Some JNull"
proof -
  have live: "live_with_data =
     \<lparr> state = initialState\<lparr> connectionStatus := Connected, connectionId := Some (JStr ''c-1''),
          recentWIPMovements := [Some (JObj [(''lot_id'', JStr ''L1'')])], messageCount := 2,
          lastMessageAt := Some 11 \<rparr>,
       wsRef = Some 0, reconnectAttemptsRef = 0, reconnectTimeoutRef = None,
       sockets = [OPEN], pendingTimers = [], timerSeq = 0,
       effects = [onConnect, onMessage heartbeat_message, onMessage (wip_message ''L1'')] \<rparr>"
    by (simp add: live_with_data_def default_options_def connect_def mounted_def setStatus_def
        readyState_of_def onopen_def onmessage_ws_def handleMessage_def heartbeat_message_def
        wip_message_def get_def data_def peek_def stream_type_def initialState_def onAlert_calls_def)
  have en: "step default_options (SockClose 0) live_with_data \<noteq> None"
    unfolding live by (simp add: readyState_of_def)
  have st: "step default_options (SockClose 0) live_with_data =
            Some (the (step default_options (SockClose 0) live_with_data))"
    using en by (simp del: step.simps)
  note t = close_keeps_stored_data [THEN conjunct1, rule_format, OF st]
  from t have kept: "stored_data (state (the (step default_options (SockClose 0) live_with_data)))
      = stored_data (state live_with_data)" by (rule conjunct1)
  from t have gone: "connectionId (state (the (step default_options (SockClose 0) live_with_data))) = Some JNull"
    by (rule conjunct2)
  have before: "stored_data (state live_with_data) =
      (Some JNull, [], [Some (JObj [(''lot_id'', JStr ''L1'')])], [], Some JNull, 2, Some 11)
      \<and> connectionId (state live_with_data) = Some (JStr ''c-1'')"
    unfolding live by (simp add: stored_data_def initialState_def)
  show ?thesis using en kept gone before by (simp add: stored_data_def del: step.simps)
qed

section \<open>The streaming request client: cache, sentinel, cancellation\<close>

lemma generate_cache_hit:
  "cache h (hashKey (stringify lib) q r) = Some t \<Longrightarrow> t \<noteq> [] \<Longrightarrow>
   generate lib q r h = h\<lparr> istate := \<lparr> text_value = t, isLoading = False, error_value = None \<rparr> \<rparr>"
  by (simp add: generate_def Let_def)

lemma generate_cache_miss:
  "cache h (hashKey (stringify lib) q r) = None \<or> cache h (hashKey (stringify lib) q r) = Some [] \<Longrightarrow>
   length (requests (generate lib q r h)) = Suc (length (requests h))
   \<and> isLoading (istate (generate lib q r h))"
  by (auto simp: generate_def Let_def abort_current_def split: option.splits)

lemma completion_writes_cache:
  assumes "request_at h i = Some rq" "phase rq = AwaitRead t" "\<not> aborted rq"
  shows "istep lib (ReadResolve i None) h =
     Some ((set_phase i Settled h)\<lparr> cache := (cache h)(req_key rq \<mapsto> t),
            istate := \<lparr> text_value = t, isLoading = False, error_value = None \<rparr> \<rparr>)"
  using assms by (simp add: waiting_def on_read_def)

lemma sentinel_ends_chunk:
  "startsWith line ''data: '' \<Longrightarrow> trim (drop 6 line) = ''[DONE]'' \<Longrightarrow>
   process_lines lib (before @ line # after) (acc, st) = process_lines lib (before @ [line]) (acc, st)"
proof (induction before arbitrary: acc st)
  case Nil
  then show ?case by simp
next
  case (Cons l ls)
  then show ?case by (simp add: Let_def split: option.splits)
qed

lemma cancel_benign_fetch_read:
  assumes cur: "abortRef h = Some i"
    and w: "waiting h i = Some (False, ph)" and ph: "ph = AwaitFetch \<or> ph = AwaitRead acc"
    and e: "settles e = Some i" and st: "istep lib e (clear h) = Some h'"
  shows "cache h' = cache h \<and> istate h' = \<lparr> text_value = [], isLoading = False, error_value = None \<rparr>"
proof -
  from w obtain rq where rq: "i < length (requests h)" "requests h ! i = rq" "aborted rq = False" "phase rq = ph"
    by (auto simp: waiting_def request_at_def split: if_splits)
  have wc: "waiting (clear h) i = Some (True, ph)"
    using cur rq by (simp add: waiting_def request_at_def clear_def abort_current_def)
  have cc: "cache (clear h) = cache h" "istate (clear h) = \<lparr> text_value = [], isLoading = False, error_value = None \<rparr>"
    using cur by (auto simp: clear_def abort_current_def)
  from ph show ?thesis
  proof
    assume "ph = AwaitFetch"
    then show ?thesis using e st wc cc
      by (cases e) (auto simp: catch_error_def set_phase_def split: if_splits)
  next
    assume "ph = AwaitRead acc"
    then show ?thesis using e st wc cc
      by (cases e) (auto simp: catch_error_def set_phase_def split: if_splits)
  qed
qed

text \<open>
  C1 fails on the code. A stream that delivers no text ends with \<^verbatim>\<open>cache.set(key, '')\<close>;
  the lookup \<^verbatim>\<open>if (cached)\<close> takes the empty string for a miss. So after a first call
  has completed and cached its (empty) text, a second call with the same arguments issues
  a second request. For a cached text that is not empty the call returns it without a
  request (\<open>generate_cache_hit\<close>).
\<close>

theorem empty_cached_text_is_refetched:
  "map_option (cached_for lib q r)
     (irun lib [Generate q r, FetchResolve 0 200 True, ReadResolve 0 None] (fresh Map.empty))
     = Some (Some [])
   \<and> map_option (length \<circ> requests)
     (irun lib [Generate q r, FetchResolve 0 200 True, ReadResolve 0 None] (fresh Map.empty))
     = Some 1
   \<and> map_option (length \<circ> requests)
     (irun lib [Generate q r, FetchResolve 0 200 True, ReadResolve 0 None, Generate q r]
        (fresh Map.empty)) = Some 2"
  by (simp add: generate_def fresh_def waiting_def request_at_def cached_for_def
      on_response_def on_read_def set_phase_def abort_current_def Let_def)

text \<open>
  C6 fails on the code. The \<^verbatim>\<open>break\<close> at the sentinel leaves the loop over the lines of
  the current piece only (\<open>sentinel_ends_chunk\<close>); the loop over the pieces goes on until
  the body ends. A line that arrives in a later piece is appended to the text and cached.
\<close>

theorem lines_after_sentinel_in_later_chunk_count:
  assumes \<open>json_parse lib ''{"chunk":"late"}'' = Some (JObj [(''chunk'', JStr ''late'')])\<close>
  shows \<open>map_option (text_value \<circ> istate)
     (irun lib [Generate q r, FetchResolve 0 200 True,
        ReadResolve 0 (Some ''data: [DONE]''), ReadResolve 0 (Some ''data: {"chunk":"late"}''),
        ReadResolve 0 None] (fresh Map.empty)) = Some ''late''
   \<and> map_option (cached_for lib q r)
     (irun lib [Generate q r, FetchResolve 0 200 True,
        ReadResolve 0 (Some ''data: [DONE]''), ReadResolve 0 (Some ''data: {"chunk":"late"}''),
        ReadResolve 0 None] (fresh Map.empty)) = Some (Some ''late'')\<close>
  using assms
  by (simp add: generate_def fresh_def hashKey_def waiting_def request_at_def cached_for_def
      on_response_def on_read_def set_phase_def startsWith_def trim_def white_space_def get_def
      abort_current_def)

theorem lines_after_sentinel_in_later_chunk_count_witness:
  \<open>json_parse example_lib ''{"chunk":"late"}'' = Some (JObj [(''chunk'', JStr ''late'')])
   \<and> map_option (text_value \<circ> istate)
     (irun example_lib [Generate ''yield_trend'' (JObj []), FetchResolve 0 200 True,
        ReadResolve 0 (Some ''data: [DONE]''), ReadResolve 0 (Some ''data: {"chunk":"late"}''),
        ReadResolve 0 None] (fresh Map.empty)) = Some ''late''\<close>
proof -
  have p: \<open>json_parse example_lib ''{"chunk":"late"}'' = Some (JObj [(''chunk'', JStr ''late'')])\<close>
    by (simp add: example_lib_def)
  from lines_after_sentinel_in_later_chunk_count [OF p, of "''yield_trend''" "JObj []"]
  show ?thesis using p by (simp del: irun.simps)
qed

text \<open>
  C8 fails on the code. While the request waits for the response or for a piece of the
  stream, \<^verbatim>\<open>clear\<close> is benign (\<open>cancel_benign_fetch_read\<close>). While it waits for the body
  of an error response, the rejection that the abort causes is swallowed by
  \<^verbatim>\<open>.catch(() => ({}))\<close>, an \<^verbatim>\<open>Error\<close> with the status is thrown, and its message is
  stored as the error after \<^verbatim>\<open>clear\<close> had reset the state.
\<close>

theorem cancel_during_error_body_surfaces_error:
  "map_option istate
     (irun lib [Generate q r, FetchResolve 0 500 True, Clear] (fresh Map.empty))
     = Some \<lparr> text_value = [], isLoading = False, error_value = None \<rparr>
   \<and> map_option (error_value \<circ> istate)
     (irun lib [Generate q r, FetchResolve 0 500 True, Clear, JsonReject 0] (fresh Map.empty))
     = Some (Some ''HTTP 500'')"
  by (simp add: generate_def fresh_def waiting_def request_at_def
      on_response_def on_error_body_def set_phase_def get_def clear_def catch_error_def
      abort_current_def)

lemma colliding_inputs_share_cached_text:
  "hashKey strfy q r = take 200 (q @ '':'' @ strfy r)
   \<and> (\<exists>qa qb. qa \<noteq> qb \<and> hashKey strfy qa r = hashKey strfy qb r)
   \<and> (take 200 (qf @ '':'' @ stringify lib rf) = take 200 (qs @ '':'' @ stringify lib rs)
        \<and> request_at h i = Some rq \<and> req_key rq = hashKey (stringify lib) qf rf
        \<and> phase rq = AwaitRead t \<and> \<not> aborted rq \<and> t \<noteq> []
      \<longrightarrow> (\<exists>h1. istep lib (ReadResolve i None) h = Some h1
             \<and> cached_for lib qs rs h1 = Some t
             \<and> generate lib qs rs h1
                 = h1\<lparr> istate := \<lparr> text_value = t, isLoading = False, error_value = None \<rparr> \<rparr>
             \<and> requests (generate lib qs rs h1) = requests h1))"
proof -
  have k: "hashKey strfy q r = take 200 (q @ '':'' @ strfy r)"
    by (simp add: hashKey_def)
  have "long_query_a \<noteq> long_query_b \<and> hashKey strfy long_query_a r = hashKey strfy long_query_b r"
    by (simp add: long_query_a_def long_query_b_def hashKey_def)
  then have ex: "\<exists>qa qb. qa \<noteq> qb \<and> hashKey strfy qa r = hashKey strfy qb r" by blast
  have hit: "\<exists>h1. istep lib (ReadResolve i None) h = Some h1
             \<and> cached_for lib qs rs h1 = Some t
             \<and> generate lib qs rs h1
                 = h1\<lparr> istate := \<lparr> text_value = t, isLoading = False, error_value = None \<rparr> \<rparr>
             \<and> requests (generate lib qs rs h1) = requests h1"
    if same: "take 200 (qf @ '':'' @ stringify lib rf) = take 200 (qs @ '':'' @ stringify lib rs)"
      and rq: "request_at h i = Some rq" "req_key rq = hashKey (stringify lib) qf rf"
        "phase rq = AwaitRead t" "\<not> aborted rq" and t: "t \<noteq> []"
  proof -
    let ?h1 = "(set_phase i Settled h)\<lparr> cache := (cache h)(req_key rq \<mapsto> t),
            istate := \<lparr> text_value = t, isLoading = False, error_value = None \<rparr> \<rparr>"
    have s: "istep lib (ReadResolve i None) h = Some ?h1"
      by (rule completion_writes_cache [OF rq(1,3,4)])
    have keys: "hashKey (stringify lib) qs rs = req_key rq"
      using same rq(2) by (simp add: hashKey_def)
    have c: "cache ?h1 (hashKey (stringify lib) qs rs) = Some t"
      using keys by simp
    have g: "generate lib qs rs ?h1 = ?h1\<lparr> istate := \<lparr> text_value = t, isLoading = False, error_value = None \<rparr> \<rparr>"
      by (rule generate_cache_hit [OF c t])
    have "requests (generate lib qs rs ?h1) = requests ?h1" unfolding g by simp
    then show ?thesis using s c g unfolding cached_for_def by blast
  qed
  show ?thesis using k ex hit by blast
qed

text \<open>
  C10 fails on the code, by the defect of C1. The key is the first 200 characters of the
  query type, a colon and the serialised results, so the two query types below, which
  differ after their 200th character, have the same key whatever the results. When the
  answer to the first is empty, the cache holds the empty text under that key, and the call
  for the second does not return it but issues a second request. When the text cached for
  the first is not empty, the call for the second publishes it and issues no request
  (\<open>colliding_inputs_share_cached_text\<close>).
\<close>

theorem colliding_input_with_empty_answer_is_refetched:
  "long_query_a \<noteq> long_query_b
   \<and> hashKey (stringify lib) long_query_a r = hashKey (stringify lib) long_query_b r
   \<and> map_option (cached_for lib long_query_b r)
       (irun lib [Generate long_query_a r, FetchResolve 0 200 True, ReadResolve 0 None]
          (fresh Map.empty)) = Some (Some [])
   \<and> map_option (length \<circ> requests)
       (irun lib [Generate long_query_a r, FetchResolve 0 200 True, ReadResolve 0 None]
          (fresh Map.empty)) = Some 1
   \<and> map_option (length \<circ> requests)
       (irun lib [Generate long_query_a r, FetchResolve 0 200 True, ReadResolve 0 None,
                  Generate long_query_b r] (fresh Map.empty)) = Some 2"
  by (simp add: long_query_a_def long_query_b_def generate_def fresh_def waiting_def
      request_at_def cached_for_def hashKey_def on_response_def on_read_def set_phase_def
      abort_current_def Let_def)

end
